theory Spec2Isabelle
  imports Complex_Main "HOL-Library.Multiset"
begin

section \<open>The task store of \<open>src/hooks/useTasks.ts\<close>\<close>

text \<open>
  The hook \<open>useTasks\<close> keeps two pieces of React state that the operations below touch:
  the task list \<open>tasks\<close> and the undo candidate \<open>lastDeleted\<close>. \<open>addTask\<close>,
  \<open>updateTask\<close> and \<open>deleteTask\<close> work through the state updater passed to \<open>setTasks\<close>,
  which is applied to the list of the current state; each is a function from the state
  before to the state after. \<open>undoDelete\<close> is built by \<open>useCallback\<close> with the
  dependency \<open>lastDeleted\<close>: it tests and appends the candidate that the render which
  built it has seen, not the candidate of the current state, so the model gives it that
  captured candidate as an argument.
\<close>

subsection \<open>JavaScript numbers and values\<close>

text \<open>
  A JavaScript number is kept as a finite value, one of the two infinities or NaN. The
  functions below only compare numbers with zero and store them, so no rounding is
  involved; the finite values are rationals.
\<close>

datatype jsnum = NaN | PInf | NInf | Fin rat

text \<open>\<open>x <= 0\<close> and \<open>x > 0\<close> of JavaScript: every comparison with NaN is false.\<close>

fun le_zero :: "jsnum \<Rightarrow> bool" where
  "le_zero NaN = False"
| "le_zero PInf = False"
| "le_zero NInf = True"
| "le_zero (Fin q) = (q \<le> 0)"

fun gt_zero :: "jsnum \<Rightarrow> bool" where
  "gt_zero NaN = False"
| "gt_zero PInf = True"
| "gt_zero NInf = False"
| "gt_zero (Fin q) = (0 < q)"

fun isFinite :: "jsnum \<Rightarrow> bool" where
  "isFinite (Fin q) = True"
| "isFinite n = False"

text \<open>
  The same comparisons on a field that may hold undefined (\<open>None\<close>): undefined is
  converted to NaN, so both are false.
\<close>

fun le_zero_opt :: "jsnum option \<Rightarrow> bool" where
  "le_zero_opt None = False"
| "le_zero_opt (Some n) = le_zero n"

fun gt_zero_opt :: "jsnum option \<Rightarrow> bool" where
  "gt_zero_opt None = False"
| "gt_zero_opt (Some n) = gt_zero n"

text \<open>
  A string is a list of characters of one byte: the code units below 256. Strings
  with other code units are outside the model.

  A field of a raw record (\<open>any\<close>) holds undefined or a value of JSON. \<open>JObj\<close> is an array
  or an object: \<open>JObj (Some p)\<close> where its conversion to a primitive yields the string
  \<open>p\<close> (\<open>''''\<close> for \<open>[]\<close>, \<open>''[object Object]''\<close> for \<open>{}\<close>), and \<open>JObj None\<close> where it has
  no conversion to a primitive (such as \<open>{"toString": null}\<close>), so that \<open>Number(v)\<close> and
  \<open>new Date(v)\<close> raise a TypeError.
\<close>

datatype jsval =
  JUndefined | JNull | JBool bool | JNum jsnum | JStr string | JObj "string option"

fun truthy :: "jsval \<Rightarrow> bool" where
  "truthy JUndefined = False"
| "truthy JNull = False"
| "truthy (JBool b) = b"
| "truthy (JNum n) = (n \<noteq> NaN \<and> n \<noteq> Fin 0)"
| "truthy (JStr s) = (s \<noteq> [])"
| "truthy (JObj p) = True"

subsection \<open>Tasks\<close>

datatype priority = High | Medium | Low

datatype status = Todo | InProgress | Done

text \<open>
  A stored task. The field \<open>id\<close> is named \<open>id_t\<close> here (\<open>id\<close> is the identity function
  of HOL) and \<open>notes\<close> is named \<open>notes_t\<close> (a keyword of Isabelle). Every field may
  hold undefined (\<open>None\<close>): \<open>notes\<close> and \<open>completedAt\<close> are optional in \<open>Task\<close>, and a
  patch can store undefined in any other field (see \<open>patch\<close>).
\<close>

record task =
  id_t :: "string option"
  title :: "string option"
  revenue :: "jsnum option"
  timeTaken :: "jsnum option"
  priority :: "priority option"
  status :: "status option"
  notes_t :: "string option"
  createdAt :: "string option"
  completedAt :: "string option"

text \<open>
  \<open>Partial<Task>\<close>: every key may be absent (\<open>None\<close>), and a key that is present holds
  a value (\<open>Some (Some v)\<close>) or undefined (\<open>Some None\<close>), which the type admits for
  every key.
\<close>

record patch =
  p_id :: "string option option"
  p_title :: "string option option"
  p_revenue :: "jsnum option option"
  p_timeTaken :: "jsnum option option"
  p_priority :: "priority option option"
  p_status :: "status option option"
  p_notes :: "string option option"
  p_createdAt :: "string option option"
  p_completedAt :: "string option option"

text \<open>
  The argument of \<open>addTask\<close>: \<open>Omit<Task, 'id'> & { id?: string }\<close>. The optional keys
  \<open>id\<close>, \<open>notes\<close> and \<open>completedAt\<close> are \<open>None\<close> when absent or undefined, which the
  code does not tell apart.
\<close>

record newTask =
  n_id :: "string option"
  n_title :: string
  n_revenue :: jsnum
  n_timeTaken :: jsnum
  n_priority :: priority
  n_status :: status
  n_notes :: "string option"
  n_createdAt :: string
  n_completedAt :: "string option"

record store =
  tasks :: "task list"
  lastDeleted :: "task option"

datatype error = TypeError | RangeError

subsection \<open>The environment\<close>

text \<open>
  What the code takes from the platform. \<open>randomUUID\<close> is \<open>None\<close> where
  \<open>crypto.randomUUID\<close> does not exist, and otherwise gives the result of its \<open>k\<close>-th
  call; \<open>random36\<close> gives \<open>Math.random().toString(36).slice(2, 8)\<close> of the \<open>k\<close>-th draw.
  \<open>nowMs\<close> is the clock (\<open>Date.now()\<close>, one reading for one call of an operation),
  \<open>toISOString\<close> renders a valid time value, \<open>dateParse\<close> is \<open>Date.parse\<close>
  (\<open>None\<close> for NaN) and \<open>stringToNumber\<close> is the conversion \<open>Number(s)\<close> of a string.
\<close>

record env =
  randomUUID :: "(nat \<Rightarrow> string) option"
  random36 :: "nat \<Rightarrow> string"
  nowMs :: int
  toISOString :: "int \<Rightarrow> string"
  dateParse :: "string \<Rightarrow> int option"
  stringToNumber :: "string \<Rightarrow> jsnum"

definition nowISO :: "env \<Rightarrow> string" where
  "nowISO e = toISOString e (nowMs e)"

subsection \<open>The operations of the store\<close>

text \<open>\<open>!merged.completedAt\<close>: undefined and the empty string are falsy.\<close>

fun unset :: "string option \<Rightarrow> bool" where
  "unset None = True"
| "unset (Some s) = (s = [])"

text \<open>\<open>{ ...t, ...patch }\<close>: every key of the patch replaces the field of the task.\<close>

definition merge :: "task \<Rightarrow> patch \<Rightarrow> task" where
  "merge t p =
     \<lparr> id_t = (case p_id p of None \<Rightarrow> id_t t | Some v \<Rightarrow> v),
       title = (case p_title p of None \<Rightarrow> title t | Some v \<Rightarrow> v),
       revenue = (case p_revenue p of None \<Rightarrow> revenue t | Some v \<Rightarrow> v),
       timeTaken = (case p_timeTaken p of None \<Rightarrow> timeTaken t | Some v \<Rightarrow> v),
       priority = (case p_priority p of None \<Rightarrow> priority t | Some v \<Rightarrow> v),
       status = (case p_status p of None \<Rightarrow> status t | Some v \<Rightarrow> v),
       notes_t = (case p_notes p of None \<Rightarrow> notes_t t | Some v \<Rightarrow> v),
       createdAt = (case p_createdAt p of None \<Rightarrow> createdAt t | Some v \<Rightarrow> v),
       completedAt = (case p_completedAt p of None \<Rightarrow> completedAt t | Some v \<Rightarrow> v) \<rparr>"

text \<open>The callback of the first \<open>prev.map\<close> of \<open>updateTask\<close>.\<close>

definition updateOne :: "env \<Rightarrow> string \<Rightarrow> patch \<Rightarrow> task \<Rightarrow> task" where
  "updateOne e i p t =
     (if id_t t \<noteq> Some i then t
      else let merged = merge t p in
        if status t \<noteq> Some Done \<and> status merged = Some Done \<and> unset (completedAt merged)
        then merged\<lparr>completedAt := Some (nowISO e)\<rparr>
        else merged)"

text \<open>
  The callback of the second map: \<open>(patch.timeTaken ?? t.timeTaken) <= 0\<close>, where
  \<open>??\<close> passes on from an absent key and from undefined.
\<close>

definition revalidate :: "string \<Rightarrow> patch \<Rightarrow> task \<Rightarrow> task" where
  "revalidate i p t =
     (if id_t t = Some i \<and>
         le_zero_opt (case p_timeTaken p of
                        None \<Rightarrow> timeTaken t
                      | Some None \<Rightarrow> timeTaken t
                      | Some (Some v) \<Rightarrow> Some v)
      then t\<lparr>timeTaken := Some (Fin 1)\<rparr>
      else t)"

definition updateTask :: "env \<Rightarrow> string \<Rightarrow> patch \<Rightarrow> store \<Rightarrow> store" where
  "updateTask e i p s =
     s\<lparr>tasks := map (revalidate i p) (map (updateOne e i p) (tasks s))\<rparr>"

text \<open>
  \<open>deleteTask\<close>: \<open>prev.find\<close> gives the first task with the id or undefined, which
  \<open>|| null\<close> turns into null; \<open>setLastDeleted(target)\<close> stores it in both cases.
\<close>

definition deleteTask :: "string \<Rightarrow> store \<Rightarrow> store" where
  "deleteTask i s =
     \<lparr> tasks = filter (\<lambda>t. id_t t \<noteq> Some i) (tasks s),
       lastDeleted = find (\<lambda>t. id_t t = Some i) (tasks s) \<rparr>"

text \<open>
  \<open>undoDelete\<close>: \<open>captured\<close> is the \<open>lastDeleted\<close> of the render that built the
  callback. With no captured candidate the call returns at once; otherwise it appends
  the captured candidate to the current list and sets the candidate to null.
\<close>

definition undoDelete :: "task option \<Rightarrow> store \<Rightarrow> store" where
  "undoDelete captured s =
     (case captured of
        None \<Rightarrow> s
      | Some d \<Rightarrow> \<lparr> tasks = tasks s @ [d], lastDeleted = None \<rparr>)"

text \<open>
  \<open>addTask\<close>: \<open>task.id ?? crypto.randomUUID()\<close> calls the platform without a guard,
  so where the function does not exist and no id is given the call raises a TypeError.
  \<open>k\<close> numbers the call of \<open>randomUUID\<close>.
\<close>

definition addTask :: "env \<Rightarrow> nat \<Rightarrow> newTask \<Rightarrow> store \<Rightarrow> error + store" where
  "addTask e k n s =
     (case (case n_id n of
              Some v \<Rightarrow> Inr v
            | None \<Rightarrow> (case randomUUID e of None \<Rightarrow> Inl TypeError | Some u \<Rightarrow> Inr (u k))) of
        Inl err \<Rightarrow> Inl err
      | Inr i \<Rightarrow>
          let tt = (if le_zero (n_timeTaken n) then Fin 1 else n_timeTaken n);
              created = nowISO e;
              completed = (if n_status n = Done then Some created else None)
          in Inr (s\<lparr>tasks := tasks s @
                [\<lparr> id_t = Some i, title = Some (n_title n), revenue = Some (n_revenue n),
                   timeTaken = Some tt, priority = Some (n_priority n),
                   status = Some (n_status n), notes_t = n_notes n,
                   createdAt = Some created, completedAt = completed \<rparr>]\<rparr>))"

subsection \<open>The derived metrics\<close>

record metrics =
  totalRevenue :: jsnum
  totalTimeTaken :: jsnum
  timeEfficiencyPct :: jsnum
  revenuePerHour :: jsnum
  averageROI :: jsnum
  performanceGrade :: string

definition INITIAL_METRICS :: metrics where
  "INITIAL_METRICS =
     \<lparr> totalRevenue = Fin 0, totalTimeTaken = Fin 0, timeEfficiencyPct = Fin 0,
       revenuePerHour = Fin 0, averageROI = Fin 0,
       performanceGrade = ''Needs Improvement'' \<rparr>"

text \<open>
  The functions that the hook imports from \<open>@/utils/logic\<close> are not part of the sources
  at hand; \<open>metrics\<close> takes them as a parameter, together with the addition of two
  numbers (\<open>s + t.timeTaken\<close>), which rounds; an undefined \<open>timeTaken\<close> is added as NaN.
\<close>

record logic =
  computeTotalRevenue :: "task list \<Rightarrow> jsnum"
  computeTimeEfficiency :: "task list \<Rightarrow> jsnum"
  computeRevenuePerHour :: "task list \<Rightarrow> jsnum"
  computeAverageROI :: "task list \<Rightarrow> jsnum"
  computePerformanceGrade :: "jsnum \<Rightarrow> string"
  numberAdd :: "jsnum \<Rightarrow> jsnum \<Rightarrow> jsnum"

definition metrics :: "logic \<Rightarrow> task list \<Rightarrow> metrics" where
  "metrics l ts =
     (if length ts = 0 then INITIAL_METRICS
      else let avg = computeAverageROI l ts in
        \<lparr> totalRevenue = computeTotalRevenue l ts,
          totalTimeTaken =
            foldl (\<lambda>s t. numberAdd l s (case timeTaken t of None \<Rightarrow> NaN | Some n \<Rightarrow> n))
              (Fin 0) ts,
          timeEfficiencyPct = computeTimeEfficiency l ts,
          revenuePerHour = computeRevenuePerHour l ts,
          averageROI = avg,
          performanceGrade = computePerformanceGrade l avg \<rparr>)"

subsection \<open>Raw records\<close>

text \<open>
  An element of the raw input array. Reading a field of a number, a string or a
  boolean gives undefined, so such an element is a record whose fields are all
  undefined; null and undefined are kept apart, because \<open>t.createdAt\<close> raises on them
  while \<open>t?.createdAt\<close> is undefined.
\<close>

record rawRecord =
  r_id :: jsval
  r_title :: jsval
  r_revenue :: jsval
  r_timeTaken :: jsval
  r_priority :: jsval
  r_status :: jsval
  r_notes :: jsval
  r_createdAt :: jsval
  r_completedAt :: jsval

datatype rawElem = Nullish | Rec rawRecord

datatype rawInput = NotArray | Array "rawElem list"

definition noFields :: rawRecord where
  "noFields =
     \<lparr> r_id = JUndefined, r_title = JUndefined, r_revenue = JUndefined,
       r_timeTaken = JUndefined, r_priority = JUndefined, r_status = JUndefined,
       r_notes = JUndefined, r_createdAt = JUndefined, r_completedAt = JUndefined \<rparr>"

text \<open>The record that the optional chaining \<open>t?.\<close> reads.\<close>

fun fields :: "rawElem \<Rightarrow> rawRecord" where
  "fields Nullish = noFields"
| "fields (Rec r) = r"

text \<open>\<open>Array.isArray(input) ? input : []\<close>\<close>

fun elements :: "rawInput \<Rightarrow> rawElem list" where
  "elements NotArray = []"
| "elements (Array rs) = rs"

subsection \<open>Conversions\<close>

text \<open>Sequencing of two steps of which the first may raise.\<close>

fun thenE :: "error + 'a \<Rightarrow> ('a \<Rightarrow> error + 'b) \<Rightarrow> error + 'b" where
  "thenE (Inl err) f = Inl err"
| "thenE (Inr x) f = f x"

text \<open>\<open>Number(v)\<close>\<close>

fun toNumber :: "env \<Rightarrow> jsval \<Rightarrow> error + jsnum" where
  "toNumber e JUndefined = Inr NaN"
| "toNumber e JNull = Inr (Fin 0)"
| "toNumber e (JBool b) = Inr (if b then Fin 1 else Fin 0)"
| "toNumber e (JNum n) = Inr n"
| "toNumber e (JStr s) = Inr (stringToNumber e s)"
| "toNumber e (JObj None) = Inl TypeError"
| "toNumber e (JObj (Some p)) = Inr (stringToNumber e p)"

text \<open>
  The time value of \<open>new Date(n)\<close> for a number: \<open>None\<close> is the invalid date. The
  valid time values are the integers of absolute value at most \<open>8.64e15\<close>.
\<close>

definition validTime :: "int \<Rightarrow> int option" where
  "validTime t = (if \<bar>t\<bar> \<le> 8640000000000000 then Some t else None)"

fun timeClip :: "jsnum \<Rightarrow> int option" where
  "timeClip (Fin q) =
     (if \<bar>q\<bar> \<le> 8640000000000000 then Some (if 0 \<le> q then \<lfloor>q\<rfloor> else \<lceil>q\<rceil>) else None)"
| "timeClip n = None"

text \<open>The time value of \<open>new Date(v)\<close>.\<close>

fun dateOf :: "env \<Rightarrow> jsval \<Rightarrow> error + int option" where
  "dateOf e JUndefined = Inr None"
| "dateOf e JNull = Inr (Some 0)"
| "dateOf e (JBool b) = Inr (Some (if b then 1 else 0))"
| "dateOf e (JNum n) = Inr (timeClip n)"
| "dateOf e (JStr s) = Inr (dateParse e s)"
| "dateOf e (JObj None) = Inl TypeError"
| "dateOf e (JObj (Some p)) = Inr (dateParse e p)"

text \<open>\<open>d.toISOString()\<close> raises a RangeError on the invalid date.\<close>

fun isoOf :: "env \<Rightarrow> int option \<Rightarrow> error + string" where
  "isoOf e None = Inl RangeError"
| "isoOf e (Some t) = Inr (toISOString e t)"

text \<open>\<open>new Date(v).toISOString()\<close>\<close>

definition isoDate :: "env \<Rightarrow> jsval \<Rightarrow> error + string" where
  "isoDate e v = thenE (dateOf e v) (isoOf e)"

text \<open>Decimal rendering of the numbers in the template strings.\<close>

fun showNat :: "nat \<Rightarrow> string" where
  "showNat n =
     (if n < 10 then [''0123456789'' ! n]
      else showNat (n div 10) @ [''0123456789'' ! (n mod 10)])"

declare showNat.simps [simp del]

definition showInt :: "int \<Rightarrow> string" where
  "showInt i = (if i < 0 then CHR ''-'' # showNat (nat (- i)) else showNat (nat i))"

text \<open>
  \<open>s.trim()\<close> removes white space and line terminators from both ends. Among the
  code units below 256 these are tab, line feed, vertical tab, form feed, carriage
  return, space and the no-break space U+00A0.
\<close>

definition isWhiteSpace :: "char \<Rightarrow> bool" where
  "isWhiteSpace c =
     (c \<in> {CHR 0x09, CHR 0x0A, CHR 0x0B, CHR 0x0C, CHR 0x0D, CHR 0x20, CHR 0xA0})"

definition trim :: "string \<Rightarrow> string" where
  "trim s = rev (dropWhile isWhiteSpace (rev (dropWhile isWhiteSpace s)))"

subsection \<open>The normalizer\<close>

text \<open>
  The callback of the map of \<open>normalizeTasks\<close>. Its result is cast to \<open>Task\<close> but
  holds the raw \<open>id\<close>, \<open>title\<close>, \<open>priority\<close>, \<open>status\<close>, \<open>notes\<close> and (when truthy)
  \<open>completedAt\<close> of the input, so it is a raw record again. \<open>Number(x) ?? 0\<close> is
  \<open>Number(x)\<close>, which is never null or undefined.

  \<open>created\<close>: the time value of the date, \<open>None\<close> for the invalid date.
  \<open>completed\<close>: \<open>t.completedAt || (t.status === 'Done' ? new Date(created.getTime() +
  24 * 3600 * 1000).toISOString() : undefined)\<close>. The steps that may raise are taken in
  the order of the source: \<open>new Date(t.createdAt)\<close>, \<open>completed\<close>, \<open>Number(t.revenue)\<close>,
  \<open>Number(t.timeTaken)\<close>, \<open>created.toISOString()\<close>.
\<close>

definition normCreated :: "env \<Rightarrow> nat \<Rightarrow> rawRecord \<Rightarrow> error + int option" where
  "normCreated e idx t =
     (if truthy (r_createdAt t) then dateOf e (r_createdAt t)
      else Inr (validTime (nowMs e - (int idx + 1) * 24 * 3600 * 1000)))"

definition normCompleted :: "env \<Rightarrow> rawRecord \<Rightarrow> int option \<Rightarrow> error + jsval" where
  "normCompleted e t created =
     (if truthy (r_completedAt t) then Inr (r_completedAt t)
      else if r_status t = JStr ''Done''
        then (case created of
                None \<Rightarrow> Inl RangeError
              | Some c \<Rightarrow> map_sum (\<lambda>err. err) JStr (isoOf e (validTime (c + 24 * 3600 * 1000))))
        else Inr JUndefined)"

definition normalizeOne :: "env \<Rightarrow> nat \<Rightarrow> rawElem \<Rightarrow> error + rawRecord" where
  "normalizeOne e idx el =
     (case el of
        Nullish \<Rightarrow> Inl TypeError
      | Rec t \<Rightarrow>
          thenE (normCreated e idx t) (\<lambda>created.
          thenE (normCompleted e t created) (\<lambda>completed.
          thenE (toNumber e (r_revenue t)) (\<lambda>rev.
          thenE (toNumber e (r_timeTaken t)) (\<lambda>tt.
          thenE (isoOf e created) (\<lambda>txt.
            Inr \<lparr> r_id = r_id t, r_title = r_title t, r_revenue = JNum rev,
                  r_timeTaken = JNum (if gt_zero tt then tt else Fin 1),
                  r_priority = r_priority t, r_status = r_status t,
                  r_notes = r_notes t, r_createdAt = JStr txt,
                  r_completedAt = completed \<rparr>))))))"

fun normalizeFrom :: "env \<Rightarrow> nat \<Rightarrow> rawElem list \<Rightarrow> error + rawRecord list" where
  "normalizeFrom e idx [] = Inr []"
| "normalizeFrom e idx (el # els) =
     thenE (normalizeOne e idx el) (\<lambda>r.
     thenE (normalizeFrom e (Suc idx) els) (\<lambda>rs. Inr (r # rs)))"

definition normalizeTasks :: "env \<Rightarrow> rawInput \<Rightarrow> error + rawRecord list" where
  "normalizeTasks e input = normalizeFrom e 0 (elements input)"

subsection \<open>The sanitizer\<close>

text \<open>
  \<open>crypto?.randomUUID?.() ?? `task-${Date.now()}-${idx}`\<close> and
  \<open>crypto?.randomUUID?.() ?? `${finalId}-${Math.random().toString(36).slice(2, 8)}`\<close>:
  each gives the id and the number of the next random draw.
\<close>

definition genId :: "env \<Rightarrow> nat \<Rightarrow> nat \<Rightarrow> string \<times> nat" where
  "genId e k idx =
     (case randomUUID e of
        Some u \<Rightarrow> (u k, Suc k)
      | None \<Rightarrow> (''task-'' @ showInt (nowMs e) @ ''-'' @ showNat idx, k))"

definition regenId :: "env \<Rightarrow> nat \<Rightarrow> string \<Rightarrow> string \<times> nat" where
  "regenId e k finalId =
     (case randomUUID e of
        Some u \<Rightarrow> (u k, Suc k)
      | None \<Rightarrow> (finalId @ ''-'' @ random36 e k, Suc k))"

text \<open>\<open>typeof t?.id === 'string' && t.id ? t.id : ...\<close>\<close>

definition firstId :: "env \<Rightarrow> nat \<Rightarrow> nat \<Rightarrow> jsval \<Rightarrow> string \<times> nat" where
  "firstId e k idx v =
     (case v of
        JStr s \<Rightarrow> if s \<noteq> [] then (s, k) else genId e k idx
      | _ \<Rightarrow> genId e k idx)"

text \<open>The lines under \<open>// ensure unique id\<close>: one replacement, not looked up again.\<close>

definition ensureUnique :: "env \<Rightarrow> nat \<Rightarrow> string set \<Rightarrow> string \<Rightarrow> string \<times> nat" where
  "ensureUnique e k seen i = (if i \<in> seen then regenId e k i else (i, k))"

definition cleanTitle :: "nat \<Rightarrow> jsval \<Rightarrow> string" where
  "cleanTitle idx v =
     (case v of
        JStr s \<Rightarrow> if trim s \<noteq> [] then trim s else ''Untitled '' @ showNat (idx + 1)
      | _ \<Rightarrow> ''Untitled '' @ showNat (idx + 1))"

definition cleanNotes :: "jsval \<Rightarrow> string option" where
  "cleanNotes v =
     (case v of
        JStr s \<Rightarrow> if trim s \<noteq> [] then Some (trim s) else None
      | _ \<Rightarrow> None)"

definition cleanPriority :: "jsval \<Rightarrow> priority" where
  "cleanPriority v =
     (if v = JStr ''High'' then High
      else if v = JStr ''Medium'' then Medium
      else if v = JStr ''Low'' then Low
      else Medium)"

definition cleanStatus :: "jsval \<Rightarrow> status" where
  "cleanStatus v =
     (if v = JStr ''Todo'' then Todo
      else if v = JStr ''In Progress'' then InProgress
      else if v = JStr ''Done'' then Done
      else Todo)"

text \<open>
  \<open>Number.isFinite(Number(t?.revenue)) ? Number(t.revenue) : 0\<close> and
  \<open>Number(t?.timeTaken) > 0 ? Number(t.timeTaken) : 1\<close>.
\<close>

definition cleanRevenue :: "env \<Rightarrow> jsval \<Rightarrow> error + jsnum" where
  "cleanRevenue e v = map_sum (\<lambda>err. err) (\<lambda>n. if isFinite n then n else Fin 0) (toNumber e v)"

definition cleanTimeTaken :: "env \<Rightarrow> jsval \<Rightarrow> error + jsnum" where
  "cleanTimeTaken e v = map_sum (\<lambda>err. err) (\<lambda>n. if gt_zero n then n else Fin 1) (toNumber e v)"

text \<open>
  The two timestamps of the sanitizer. \<open>createdAt\<close> is the ISO string of the record's
  date, or of the clock; \<open>completedAt\<close> of a Done record without its own value is
  \<open>new Date(createdAt).toISOString()\<close>, the string just computed parsed and rendered
  again.
\<close>

definition cleanCreatedAt :: "env \<Rightarrow> jsval \<Rightarrow> error + string" where
  "cleanCreatedAt e v = (if truthy v then isoDate e v else Inr (nowISO e))"

definition cleanCompletedAt :: "env \<Rightarrow> jsval \<Rightarrow> status \<Rightarrow> string \<Rightarrow> error + string option" where
  "cleanCompletedAt e v st created =
     (if truthy v then map_sum (\<lambda>err. err) Some (isoDate e v)
      else if st = Done then map_sum (\<lambda>err. err) Some (isoDate e (JStr created))
      else Inr None)"

text \<open>
  The callback of the map of \<open>sanitizeTasks\<close>: the task, the number of the next random
  draw and the set \<open>seen\<close> after the element. The steps that may raise are taken in the
  order of the source: revenue, timeTaken, createdAt, completedAt.
\<close>

definition sanitizeOne ::
  "env \<Rightarrow> nat \<Rightarrow> nat \<Rightarrow> string set \<Rightarrow> rawElem \<Rightarrow> error + (task \<times> nat \<times> string set)" where
  "sanitizeOne e idx k seen el =
     (let t = fields el;
          (i, k1) = firstId e k idx (r_id t);
          st = cleanStatus (r_status t)
      in thenE (cleanRevenue e (r_revenue t)) (\<lambda>rev.
         thenE (cleanTimeTaken e (r_timeTaken t)) (\<lambda>tt.
         thenE (cleanCreatedAt e (r_createdAt t)) (\<lambda>created.
         thenE (cleanCompletedAt e (r_completedAt t) st created) (\<lambda>completed.
           let (finalId, k2) = ensureUnique e k1 seen i in
           Inr (\<lparr> id_t = Some finalId, title = Some (cleanTitle idx (r_title t)),
                   revenue = Some rev, timeTaken = Some tt,
                   priority = Some (cleanPriority (r_priority t)), status = Some st,
                   notes_t = cleanNotes (r_notes t), createdAt = Some created,
                   completedAt = completed \<rparr>,
                k2, insert finalId seen))))))"

fun sanitizeFrom ::
  "env \<Rightarrow> nat \<Rightarrow> nat \<Rightarrow> string set \<Rightarrow> rawElem list \<Rightarrow> error + task list" where
  "sanitizeFrom e idx k seen [] = Inr []"
| "sanitizeFrom e idx k seen (el # els) =
     (case sanitizeOne e idx k seen el of
        Inl err \<Rightarrow> Inl err
      | Inr (t, k', seen') \<Rightarrow>
          (case sanitizeFrom e (Suc idx) k' seen' els of
             Inl err \<Rightarrow> Inl err
           | Inr ts \<Rightarrow> Inr (t # ts)))"

definition sanitizeTasks :: "env \<Rightarrow> nat \<Rightarrow> rawInput \<Rightarrow> error + task list" where
  "sanitizeTasks e k input = sanitizeFrom e 0 k {} (elements input)"

text \<open>The ids that the records of the input supply themselves.\<close>

definition suppliedIds :: "rawElem list \<Rightarrow> string set" where
  "suppliedIds els = {s. \<exists>el \<in> set els. r_id (fields el) = JStr s}"

text \<open>
  The replacement of a duplicate id is a random string that the code does not look up
  in \<open>seen\<close>. \<open>replacementsFresh\<close> follows the ids through the input and says that
  every replacement drawn is new, that is, not in \<open>seen\<close> at that moment.
\<close>

fun replacementsFresh :: "env \<Rightarrow> nat \<Rightarrow> nat \<Rightarrow> string set \<Rightarrow> rawElem list \<Rightarrow> bool" where
  "replacementsFresh e idx k seen [] = True"
| "replacementsFresh e idx k seen (el # els) =
     (let (i, k1) = firstId e k idx (r_id (fields el));
          (finalId, k2) = ensureUnique e k1 seen i
      in (i \<in> seen \<longrightarrow> fst (regenId e k1 i) \<notin> seen) \<and>
         replacementsFresh e (Suc idx) k2 (insert finalId seen) els)"

subsection \<open>Concrete inputs\<close>

text \<open>
  An environment for the examples: a generator of pairwise different ids, and the
  renderings and parsings of the four time values that the examples use, as the
  platform gives them.
\<close>

definition exUUID :: "nat \<Rightarrow> string" where
  "exUUID k = ''uuid-'' @ replicate k CHR ''x''"

definition exToISO :: "int \<Rightarrow> string" where
  "exToISO t =
     (if t = 0 then ''1970-01-01T00:00:00.000Z''
      else if t = 86400000 then ''1970-01-02T00:00:00.000Z''
      else if t = 1700000000000 then ''2023-11-14T22:13:20.000Z''
      else if t = 1700000060000 then ''2023-11-14T22:14:20.000Z''
      else [])"

definition exParse :: "string \<Rightarrow> int option" where
  "exParse s =
     (if s = ''1970-01-01T00:00:00.000Z'' then Some 0
      else if s = ''1970-01-02T00:00:00.000Z'' then Some 86400000
      else if s = ''2023-11-14T22:13:20.000Z'' then Some 1700000000000
      else if s = ''2023-11-14T22:14:20.000Z'' then Some 1700000060000
      else None)"

definition exEnv :: env where
  "exEnv =
     \<lparr> randomUUID = Some exUUID, random36 = (\<lambda>k. ''k3x9qz''), nowMs = 1700000000000,
       toISOString = exToISO, dateParse = exParse, stringToNumber = (\<lambda>s. NaN) \<rparr>"

text \<open>The same platform one minute later.\<close>

definition exEnvLater :: env where
  "exEnvLater = exEnv\<lparr>nowMs := 1700000060000\<rparr>"

text \<open>
  A platform without \<open>crypto.randomUUID\<close> (a page that is not served over https), on
  which \<open>Math.random\<close> gives the same six characters at two draws.
\<close>

definition exEnvNoUUID :: env where
  "exEnvNoUUID = exEnv\<lparr>randomUUID := None\<rparr>"

definition taskA :: task where
  "taskA =
     \<lparr> id_t = Some ''a'', title = Some ''Call client'', revenue = Some (Fin 100),
       timeTaken = Some (Fin 5), priority = Some High, status = Some Todo, notes_t = None,
       createdAt = Some ''1970-01-01T00:00:00.000Z'', completedAt = None \<rparr>"

definition taskB :: task where
  "taskB =
     \<lparr> id_t = Some ''b'', title = Some ''Send quote'', revenue = Some (Fin 250),
       timeTaken = Some (Fin 2), priority = Some Low, status = Some InProgress,
       notes_t = Some ''draft'', createdAt = Some ''1970-01-02T00:00:00.000Z'',
       completedAt = None \<rparr>"

text \<open>A task that was Done once and was moved back: it still carries its \<open>completedAt\<close>.\<close>

definition taskReopened :: task where
  "taskReopened = taskA\<lparr>completedAt := Some ''1970-01-02T00:00:00.000Z''\<rparr>"

definition emptyPatch :: patch where
  "emptyPatch =
     \<lparr> p_id = None, p_title = None, p_revenue = None, p_timeTaken = None,
       p_priority = None, p_status = None, p_notes = None, p_createdAt = None,
       p_completedAt = None \<rparr>"

definition donePatch :: patch where
  "donePatch = emptyPatch\<lparr>p_status := Some (Some Done)\<rparr>"

definition callClient :: newTask where
  "callClient =
     \<lparr> n_id = None, n_title = ''Call client'', n_revenue = Fin 100, n_timeTaken = Fin 0,
       n_priority = High, n_status = Todo, n_notes = None, n_createdAt = [],
       n_completedAt = None \<rparr>"

definition rawDone :: rawRecord where
  "rawDone = noFields\<lparr>r_id := JStr ''a'', r_status := JStr ''Done'',
                       r_createdAt := JStr ''1970-01-01T00:00:00.000Z''\<rparr>"

section \<open>Unknown ids\<close>

lemma updateOne_other: "id_t t \<noteq> Some i \<Longrightarrow> updateOne e i p t = t"
  by (simp add: updateOne_def)

lemma revalidate_other: "id_t t \<noteq> Some i \<Longrightarrow> revalidate i p t = t"
  by (simp add: revalidate_def)

lemma tasks_updateTask:
  "tasks (updateTask e i p s) = map (\<lambda>t. revalidate i p (updateOne e i p t)) (tasks s)"
  by (simp add: updateTask_def)

lemma lastDeleted_updateTask: "lastDeleted (updateTask e i p s) = lastDeleted s"
  by (simp add: updateTask_def)

lemma update_absent_id:
  "Some i \<notin> id_t ` set ts \<Longrightarrow> map (\<lambda>t. revalidate i p (updateOne e i p t)) ts = ts"
  by (induction ts) (auto simp: updateOne_other revalidate_other)

lemma filter_absent_id:
  "Some i \<notin> id_t ` set ts \<Longrightarrow> filter (\<lambda>t. id_t t \<noteq> Some i) ts = ts"
  by (induction ts) auto

lemma find_absent_id:
  "Some i \<notin> id_t ` set ts \<Longrightarrow> find (\<lambda>t. id_t t = Some i) ts = None"
  by (induction ts) auto

text \<open>
  C1, as the claim states it, fails: \<open>deleteTask\<close> with an id that no task has leaves the
  list as it is, but it stores null as the undo candidate, so a candidate cached before
  is lost. Here the store holds task B and the candidate A, and the id \<open>ghost\<close> is
  deleted.
\<close>

theorem unknown_id_counterexample:
  "Some ''ghost'' \<notin> id_t ` set (tasks \<lparr>tasks = [taskB], lastDeleted = Some taskA\<rparr>) \<and>
   deleteTask ''ghost'' \<lparr>tasks = [taskB], lastDeleted = Some taskA\<rparr>
     \<noteq> \<lparr>tasks = [taskB], lastDeleted = Some taskA\<rparr>"
  by (simp add: deleteTask_def taskB_def)

text \<open>
  C1, amended: for an id that no task of the list has, \<open>updateTask\<close> leaves the whole
  state unchanged, and \<open>deleteTask\<close> leaves the task list unchanged and sets the undo
  candidate to null. Neither operation has an error result.
\<close>

theorem unknown_id_ignored:
  assumes "Some i \<notin> id_t ` set (tasks s)"
  shows "updateTask e i p s = s \<and> deleteTask i s = s\<lparr>lastDeleted := None\<rparr>"
proof
  have "tasks (updateTask e i p s) = tasks s"
    using assms by (simp add: tasks_updateTask update_absent_id)
  then show "updateTask e i p s = s"
    by (simp add: updateTask_def)
next
  show "deleteTask i s = s\<lparr>lastDeleted := None\<rparr>"
    using assms by (simp add: deleteTask_def filter_absent_id find_absent_id)
qed

theorem unknown_id_ignored_witness:
  "Some ''ghost'' \<notin> id_t ` set (tasks \<lparr>tasks = [taskB], lastDeleted = Some taskA\<rparr>) \<and>
   updateTask exEnv ''ghost'' donePatch \<lparr>tasks = [taskB], lastDeleted = Some taskA\<rparr>
     = \<lparr>tasks = [taskB], lastDeleted = Some taskA\<rparr> \<and>
   deleteTask ''ghost'' \<lparr>tasks = [taskB], lastDeleted = Some taskA\<rparr>
     = \<lparr>tasks = [taskB], lastDeleted = None\<rparr>"
  using unknown_id_ignored [of "''ghost''" "\<lparr>tasks = [taskB], lastDeleted = Some taskA\<rparr>"
      exEnv donePatch]
  by (simp add: taskB_def)

section \<open>Delete and undo\<close>

text \<open>
  C2, as the claim states it, fails: \<open>undoDelete\<close> works on the candidate that its
  render has captured. Called right after \<open>deleteTask\<close>, before the component has
  rendered again, it still holds the candidate from before the delete (here none), so
  it returns at once: task A stays deleted and stays the candidate.
\<close>

theorem delete_then_undo_counterexample:
  "Some ''a'' \<in> id_t ` set (tasks \<lparr>tasks = [taskA, taskB], lastDeleted = None\<rparr>) \<and>
   undoDelete (lastDeleted \<lparr>tasks = [taskA, taskB], lastDeleted = None\<rparr>)
       (deleteTask ''a'' \<lparr>tasks = [taskA, taskB], lastDeleted = None\<rparr>)
     = \<lparr>tasks = [taskB], lastDeleted = Some taskA\<rparr> \<and>
   taskA \<notin> set [taskB]"
  by (simp add: undoDelete_def deleteTask_def taskA_def taskB_def)

lemma undoDelete_none: "undoDelete None s = s"
  by (simp add: undoDelete_def)

lemma find_id_Some:
  "Some i \<in> id_t ` set ts \<Longrightarrow>
   \<exists>d. find (\<lambda>t. id_t t = Some i) ts = Some d \<and> d \<in> set ts \<and> id_t d = Some i"
  by (induction ts) auto

lemma find_filter_other:
  "i1 \<noteq> i2 \<Longrightarrow>
   find (\<lambda>t. id_t t = Some i2) (filter (\<lambda>t. id_t t \<noteq> Some i1) ts)
     = find (\<lambda>t. id_t t = Some i2) ts"
  by (induction ts) auto

text \<open>Where the ids are unique, deleting an id takes exactly the task found out of the list.\<close>

lemma mset_delete_distinct:
  "distinct (map id_t ts) \<Longrightarrow> find (\<lambda>t. id_t t = Some i) ts = Some d \<Longrightarrow>
   mset (filter (\<lambda>t. id_t t \<noteq> Some i) ts) + {#d#} = mset ts"
proof (induction ts)
  case Nil
  then show ?case by simp
next
  case (Cons a ts)
  show ?case
  proof (cases "id_t a = Some i")
    case True
    with Cons.prems have "d = a" and "Some i \<notin> id_t ` set ts" by auto
    then show ?thesis using True by (simp add: filter_absent_id)
  next
    case False
    with Cons show ?thesis by simp
  qed
qed

text \<open>
  C2, amended: let every \<open>undoDelete\<close> be called from a render that has seen the state
  it is applied to, so that the candidate it has captured is the \<open>lastDeleted\<close> of that
  state. Then, in a state with a task of id \<open>i\<close>, \<open>deleteTask i\<close> followed by
  \<open>undoDelete\<close> gives the list without the tasks of id \<open>i\<close> followed by the deleted task
  \<open>d\<close> (the first task of that id, the whole record), and no candidate; where the ids
  of the list are unique the list after is a rearrangement of the list before. After
  \<open>deleteTask i1\<close> and \<open>deleteTask i2\<close> for two different ids of the list, \<open>undoDelete\<close>
  appends the second deleted task only (no task of id \<open>i1\<close> is in the list), and one
  more \<open>undoDelete\<close> changes nothing.
\<close>

theorem delete_then_undo:
  "(Some i \<in> id_t ` set (tasks s) \<longrightarrow>
      (let s1 = deleteTask i s; s2 = undoDelete (lastDeleted s1) s1 in
       \<exists>d. d \<in> set (tasks s) \<and> id_t d = Some i \<and>
           find (\<lambda>t. id_t t = Some i) (tasks s) = Some d \<and>
           s2 = \<lparr>tasks = filter (\<lambda>t. id_t t \<noteq> Some i) (tasks s) @ [d], lastDeleted = None\<rparr> \<and>
           (distinct (map id_t (tasks s)) \<longrightarrow> mset (tasks s2) = mset (tasks s)))) \<and>
   (Some i1 \<in> id_t ` set (tasks s) \<and> Some i2 \<in> id_t ` set (tasks s) \<and> i1 \<noteq> i2 \<longrightarrow>
      (let s1 = deleteTask i1 s; s2 = deleteTask i2 s1;
           s3 = undoDelete (lastDeleted s2) s2; s4 = undoDelete (lastDeleted s3) s3 in
       \<exists>d2. d2 \<in> set (tasks s) \<and> id_t d2 = Some i2 \<and>
           find (\<lambda>t. id_t t = Some i2) (tasks s) = Some d2 \<and>
           s3 = \<lparr>tasks = filter (\<lambda>t. id_t t \<noteq> Some i2)
                           (filter (\<lambda>t. id_t t \<noteq> Some i1) (tasks s)) @ [d2],
                 lastDeleted = None\<rparr> \<and>
           Some i1 \<notin> id_t ` set (tasks s3) \<and>
           s4 = s3))"
proof (intro conjI impI)
  assume "Some i \<in> id_t ` set (tasks s)"
  then obtain d where d: "find (\<lambda>t. id_t t = Some i) (tasks s) = Some d" "d \<in> set (tasks s)"
      "id_t d = Some i"
    using find_id_Some by blast
  let ?s1 = "deleteTask i s"
  let ?s2 = "undoDelete (lastDeleted ?s1) ?s1"
  have u: "?s2 = \<lparr>tasks = filter (\<lambda>t. id_t t \<noteq> Some i) (tasks s) @ [d], lastDeleted = None\<rparr>"
    using d(1) by (simp add: undoDelete_def deleteTask_def)
  have "distinct (map id_t (tasks s)) \<longrightarrow> mset (tasks ?s2) = mset (tasks s)"
    using mset_delete_distinct [OF _ d(1)] by (simp add: u)
  with d u have "\<exists>d. d \<in> set (tasks s) \<and> id_t d = Some i \<and>
           find (\<lambda>t. id_t t = Some i) (tasks s) = Some d \<and>
           ?s2 = \<lparr>tasks = filter (\<lambda>t. id_t t \<noteq> Some i) (tasks s) @ [d], lastDeleted = None\<rparr> \<and>
           (distinct (map id_t (tasks s)) \<longrightarrow> mset (tasks ?s2) = mset (tasks s))"
    by blast
  then show "let s1 = deleteTask i s; s2 = undoDelete (lastDeleted s1) s1 in
       \<exists>d. d \<in> set (tasks s) \<and> id_t d = Some i \<and>
           find (\<lambda>t. id_t t = Some i) (tasks s) = Some d \<and>
           s2 = \<lparr>tasks = filter (\<lambda>t. id_t t \<noteq> Some i) (tasks s) @ [d], lastDeleted = None\<rparr> \<and>
           (distinct (map id_t (tasks s)) \<longrightarrow> mset (tasks s2) = mset (tasks s))"
    unfolding Let_def .
next
  assume a: "Some i1 \<in> id_t ` set (tasks s) \<and> Some i2 \<in> id_t ` set (tasks s) \<and> i1 \<noteq> i2"
  then obtain d2 where d: "find (\<lambda>t. id_t t = Some i2) (tasks s) = Some d2" "d2 \<in> set (tasks s)"
      "id_t d2 = Some i2"
    using find_id_Some by blast
  let ?s2 = "deleteTask i2 (deleteTask i1 s)"
  let ?s3 = "undoDelete (lastDeleted ?s2) ?s2"
  have u: "?s3 = \<lparr>tasks = filter (\<lambda>t. id_t t \<noteq> Some i2)
                           (filter (\<lambda>t. id_t t \<noteq> Some i1) (tasks s)) @ [d2],
                 lastDeleted = None\<rparr>"
    using a d(1) by (simp add: undoDelete_def deleteTask_def find_filter_other)
  have n: "Some i1 \<notin> id_t ` set (tasks ?s3)"
    using a d(3) by (auto simp: u)
  have "lastDeleted ?s3 = None"
    by (simp add: u)
  then have "undoDelete (lastDeleted ?s3) ?s3 = ?s3"
    by (simp only: undoDelete_none)
  with d u n have "\<exists>d2. d2 \<in> set (tasks s) \<and> id_t d2 = Some i2 \<and>
           find (\<lambda>t. id_t t = Some i2) (tasks s) = Some d2 \<and>
           ?s3 = \<lparr>tasks = filter (\<lambda>t. id_t t \<noteq> Some i2)
                           (filter (\<lambda>t. id_t t \<noteq> Some i1) (tasks s)) @ [d2],
                 lastDeleted = None\<rparr> \<and>
           Some i1 \<notin> id_t ` set (tasks ?s3) \<and>
           undoDelete (lastDeleted ?s3) ?s3 = ?s3"
    by blast
  then show "let s1 = deleteTask i1 s; s2 = deleteTask i2 s1;
           s3 = undoDelete (lastDeleted s2) s2; s4 = undoDelete (lastDeleted s3) s3 in
       \<exists>d2. d2 \<in> set (tasks s) \<and> id_t d2 = Some i2 \<and>
           find (\<lambda>t. id_t t = Some i2) (tasks s) = Some d2 \<and>
           s3 = \<lparr>tasks = filter (\<lambda>t. id_t t \<noteq> Some i2)
                           (filter (\<lambda>t. id_t t \<noteq> Some i1) (tasks s)) @ [d2],
                 lastDeleted = None\<rparr> \<and>
           Some i1 \<notin> id_t ` set (tasks s3) \<and>
           s4 = s3"
    unfolding Let_def .
qed

theorem delete_then_undo_witness:
  "Some ''a'' \<in> id_t ` set [taskA, taskB] \<and> Some ''b'' \<in> id_t ` set [taskA, taskB] \<and>
   distinct (map id_t [taskA, taskB]) \<and>
   lastDeleted (deleteTask ''a'' \<lparr>tasks = [taskA, taskB], lastDeleted = None\<rparr>) = Some taskA \<and>
   undoDelete (Some taskA) (deleteTask ''a'' \<lparr>tasks = [taskA, taskB], lastDeleted = None\<rparr>)
     = \<lparr>tasks = [taskB, taskA], lastDeleted = None\<rparr> \<and>
   lastDeleted (deleteTask ''b''
       (deleteTask ''a'' \<lparr>tasks = [taskA, taskB], lastDeleted = None\<rparr>)) = Some taskB \<and>
   undoDelete (Some taskB) (deleteTask ''b''
       (deleteTask ''a'' \<lparr>tasks = [taskA, taskB], lastDeleted = None\<rparr>))
     = \<lparr>tasks = [taskB], lastDeleted = None\<rparr> \<and>
   undoDelete None \<lparr>tasks = [taskB], lastDeleted = None\<rparr>
     = \<lparr>tasks = [taskB], lastDeleted = None\<rparr>"
  using delete_then_undo [of "''a''" "\<lparr>tasks = [taskA, taskB], lastDeleted = None\<rparr>" "''a''" "''b''"]
  by (simp add: taskA_def taskB_def deleteTask_def undoDelete_def)

section \<open>The timestamp of completion\<close>

text \<open>
  C4, as the claim states it, fails: a task that is not Done but still carries a
  \<open>completedAt\<close> (it was Done before and was moved back) keeps that value when the patch
  sets it to Done; the clock reads \<open>2023-11-14T22:13:20.000Z\<close> and is not stored.
\<close>

theorem done_stamp_counterexample:
  "status taskReopened \<noteq> Some Done \<and> p_status donePatch = Some (Some Done) \<and>
   p_completedAt donePatch = None \<and>
   map completedAt (tasks (updateTask exEnv ''a'' donePatch
       \<lparr>tasks = [taskReopened], lastDeleted = None\<rparr>))
     = [Some ''1970-01-02T00:00:00.000Z''] \<and>
   nowISO exEnv = ''2023-11-14T22:13:20.000Z''"
  by (simp add: updateTask_def updateOne_def revalidate_def merge_def taskReopened_def taskA_def
      donePatch_def emptyPatch_def nowISO_def exEnv_def exToISO_def)

lemma completedAt_revalidate: "completedAt (revalidate i p t) = completedAt t"
  by (simp add: revalidate_def)

lemma status_revalidate: "status (revalidate i p t) = status t"
  by (simp add: revalidate_def)

lemma id_revalidate: "id_t (revalidate i p t) = id_t t"
  by (simp add: revalidate_def)

lemma updateOne_done:
  assumes "p_status p = Some (Some Done)" "p_completedAt p = None" "id_t t = Some i"
  shows "status (updateOne e i p t) = Some Done"
    and "completedAt (updateOne e i p t) =
           (if status t \<noteq> Some Done \<and> unset (completedAt t) then Some (nowISO e)
            else completedAt t)"
  using assms by (simp_all add: updateOne_def merge_def Let_def)

lemma repeat_one:
  assumes "p_status p = Some (Some Done)" "p_completedAt p = None"
  shows "completedAt (revalidate i p (updateOne e2 i p (revalidate i p (updateOne e1 i p t))))
           = completedAt (revalidate i p (updateOne e1 i p t))"
proof (cases "id_t (revalidate i p (updateOne e1 i p t)) = Some i")
  case False
  then show ?thesis by (simp add: updateOne_other completedAt_revalidate)
next
  case True
  show ?thesis
  proof (cases "id_t t = Some i")
    case False
    then show ?thesis by (simp add: updateOne_other revalidate_other)
  next
    case t: True
    have "status (revalidate i p (updateOne e1 i p t)) = Some Done"
      using assms t by (simp add: status_revalidate updateOne_done)
    then show ?thesis
      using assms True by (simp add: completedAt_revalidate updateOne_def merge_def Let_def)
  qed
qed

text \<open>
  C4, amended: let the patch set the status to Done and have no \<open>completedAt\<close> key. A task
  of id \<open>i\<close> that is not Done is Done after \<open>updateTask i\<close>, and its \<open>completedAt\<close> is
  the current time where it was undefined or empty before, and its old value otherwise.
  The same update applied once more (at any later time) changes no \<open>completedAt\<close> of
  the list.
\<close>

theorem done_stamp:
  assumes "p_status p = Some (Some Done)" and "p_completedAt p = None"
  shows "(\<forall>k < length (tasks s).
            id_t (tasks s ! k) = Some i \<and> status (tasks s ! k) \<noteq> Some Done \<longrightarrow>
            status (tasks (updateTask e i p s) ! k) = Some Done \<and>
            completedAt (tasks (updateTask e i p s) ! k)
              = (if unset (completedAt (tasks s ! k)) then Some (nowISO e)
                 else completedAt (tasks s ! k))) \<and>
         map completedAt (tasks (updateTask e' i p (updateTask e i p s)))
           = map completedAt (tasks (updateTask e i p s))"
proof (intro conjI allI impI)
  fix k assume "k < length (tasks s)"
    and "id_t (tasks s ! k) = Some i \<and> status (tasks s ! k) \<noteq> Some Done"
  then show "status (tasks (updateTask e i p s) ! k) = Some Done"
    using assms by (simp add: tasks_updateTask status_revalidate updateOne_done)
next
  fix k assume "k < length (tasks s)"
    and "id_t (tasks s ! k) = Some i \<and> status (tasks s ! k) \<noteq> Some Done"
  then show "completedAt (tasks (updateTask e i p s) ! k)
              = (if unset (completedAt (tasks s ! k)) then Some (nowISO e)
                 else completedAt (tasks s ! k))"
    using assms by (simp add: tasks_updateTask completedAt_revalidate updateOne_done)
next
  show "map completedAt (tasks (updateTask e' i p (updateTask e i p s)))
           = map completedAt (tasks (updateTask e i p s))"
    using repeat_one [OF assms] by (simp add: tasks_updateTask)
qed

theorem done_stamp_witness:
  "p_status donePatch = Some (Some Done) \<and> p_completedAt donePatch = None \<and>
   tasks (updateTask exEnv ''a'' donePatch \<lparr>tasks = [taskA, taskB], lastDeleted = None\<rparr>)
     = [taskA\<lparr>status := Some Done, completedAt := Some ''2023-11-14T22:13:20.000Z''\<rparr>, taskB] \<and>
   map completedAt (tasks (updateTask exEnvLater ''a'' donePatch
       (updateTask exEnv ''a'' donePatch \<lparr>tasks = [taskA, taskB], lastDeleted = None\<rparr>)))
     = [Some ''2023-11-14T22:13:20.000Z'', None]"
  using done_stamp [of donePatch "\<lparr>tasks = [taskA, taskB], lastDeleted = None\<rparr>" "''a''"
      exEnv exEnvLater]
  by (simp add: updateTask_def updateOne_def revalidate_def merge_def taskA_def taskB_def
      donePatch_def emptyPatch_def nowISO_def exEnv_def exEnvLater_def exToISO_def)

section \<open>The timestamp of creation\<close>

text \<open>
  C8, as the claim states it, fails: the patch is merged whole, so a patch with a
  \<open>createdAt\<close> key replaces the value set at creation.
\<close>

theorem createdAt_counterexample:
  "map createdAt (tasks (updateTask exEnv ''a''
       (emptyPatch\<lparr>p_createdAt := Some (Some ''2023-11-14T22:13:20.000Z'')\<rparr>)
       \<lparr>tasks = [taskA], lastDeleted = None\<rparr>)) = [Some ''2023-11-14T22:13:20.000Z''] \<and>
   map createdAt (tasks \<lparr>tasks = [taskA], lastDeleted = None\<rparr>)
     = [Some ''1970-01-01T00:00:00.000Z'']"
  by (simp add: updateTask_def updateOne_def revalidate_def merge_def taskA_def emptyPatch_def)

lemma createdAt_revalidate: "createdAt (revalidate i p t) = createdAt t"
  by (simp add: revalidate_def)

lemma createdAt_updateOne: "p_createdAt p = None \<Longrightarrow> createdAt (updateOne e i p t) = createdAt t"
  by (simp add: updateOne_def merge_def Let_def)

lemma find_in_set: "find P ts = Some d \<Longrightarrow> d \<in> set ts"
  by (induction ts) (auto split: if_splits)

text \<open>
  C8, amended: \<open>updateTask\<close> with a patch that has no \<open>createdAt\<close> key leaves the
  \<open>createdAt\<close> of every task of the list as it was (position by position) and does not
  touch the undo candidate. \<open>deleteTask\<close> keeps the remaining tasks as they are and caches
  a task of the list as it is; \<open>undoDelete\<close> moves the cached task to the end of the
  list as it is, and with any captured candidate it keeps the tasks of the list as they
  are and appends nothing but that candidate.
\<close>

theorem createdAt_kept:
  "(p_createdAt p = None \<longrightarrow>
      map createdAt (tasks (updateTask e i p s)) = map createdAt (tasks s) \<and>
      lastDeleted (updateTask e i p s) = lastDeleted s) \<and>
   tasks (deleteTask i s) = filter (\<lambda>t. id_t t \<noteq> Some i) (tasks s) \<and>
   (\<forall>d. lastDeleted (deleteTask i s) = Some d \<longrightarrow> d \<in> set (tasks s)) \<and>
   tasks (undoDelete (lastDeleted s) s) @
       (case lastDeleted (undoDelete (lastDeleted s) s) of None \<Rightarrow> [] | Some d \<Rightarrow> [d])
     = tasks s @ (case lastDeleted s of None \<Rightarrow> [] | Some d \<Rightarrow> [d]) \<and>
   tasks (undoDelete c s) = tasks s @ (case c of None \<Rightarrow> [] | Some d \<Rightarrow> [d]) \<and>
   (\<forall>d. lastDeleted (undoDelete c s) = Some d \<longrightarrow> lastDeleted s = Some d)"
proof (intro conjI impI allI)
  assume "p_createdAt p = None"
  then show "map createdAt (tasks (updateTask e i p s)) = map createdAt (tasks s)"
    by (simp add: tasks_updateTask createdAt_revalidate createdAt_updateOne)
next
  show "lastDeleted (updateTask e i p s) = lastDeleted s"
    by (rule lastDeleted_updateTask)
next
  show "tasks (deleteTask i s) = filter (\<lambda>t. id_t t \<noteq> Some i) (tasks s)"
    by (simp add: deleteTask_def)
next
  fix d assume "lastDeleted (deleteTask i s) = Some d"
  then show "d \<in> set (tasks s)"
    by (simp add: deleteTask_def find_in_set)
next
  show "tasks (undoDelete (lastDeleted s) s) @
       (case lastDeleted (undoDelete (lastDeleted s) s) of None \<Rightarrow> [] | Some d \<Rightarrow> [d])
     = tasks s @ (case lastDeleted s of None \<Rightarrow> [] | Some d \<Rightarrow> [d])"
    by (cases "lastDeleted s") (simp_all add: undoDelete_def)
next
  show "tasks (undoDelete c s) = tasks s @ (case c of None \<Rightarrow> [] | Some d \<Rightarrow> [d])"
    by (cases c) (simp_all add: undoDelete_def)
next
  fix d assume "lastDeleted (undoDelete c s) = Some d"
  then show "lastDeleted s = Some d"
    by (cases c) (simp_all add: undoDelete_def)
qed

theorem createdAt_kept_witness:
  "p_createdAt donePatch = None \<and>
   map createdAt (tasks (updateTask exEnv ''a'' donePatch
       \<lparr>tasks = [taskA, taskB], lastDeleted = None\<rparr>))
     = [Some ''1970-01-01T00:00:00.000Z'', Some ''1970-01-02T00:00:00.000Z''] \<and>
   lastDeleted (deleteTask ''a'' \<lparr>tasks = [taskA, taskB], lastDeleted = None\<rparr>) = Some taskA \<and>
   taskA \<in> set [taskA, taskB]"
  using createdAt_kept [of donePatch exEnv "''a''" "\<lparr>tasks = [taskA, taskB], lastDeleted = None\<rparr>"]
  by (simp add: taskA_def taskB_def donePatch_def emptyPatch_def deleteTask_def)

section \<open>The metrics of the empty list\<close>

text \<open>
  C9: for the empty task list \<open>metrics\<close> is \<open>INITIAL_METRICS\<close>, whatever the functions of
  \<open>@/utils/logic\<close> are (none of them is called, so nothing is divided): the five
  numbers are 0 and the grade is \<open>Needs Improvement\<close>.
\<close>

theorem metrics_empty:
  "metrics l [] = INITIAL_METRICS \<and>
   metrics l [] = \<lparr> totalRevenue = Fin 0, totalTimeTaken = Fin 0, timeEfficiencyPct = Fin 0,
       revenuePerHour = Fin 0, averageROI = Fin 0, performanceGrade = ''Needs Improvement'' \<rparr>"
  by (simp add: metrics_def INITIAL_METRICS_def)

section \<open>The merge of a patch\<close>




section \<open>Adding a task\<close>

text \<open>
  What \<open>addTask\<close> does: it appends one task to the list, whose id is the id given, or
  the result of \<open>crypto.randomUUID()\<close> where none is given, whose \<open>timeTaken\<close> is 1 where
  the given value is \<open><= 0\<close>, whose \<open>createdAt\<close> is the current time and whose
  \<open>completedAt\<close> is the current time for the status Done and undefined otherwise,
  whatever \<open>createdAt\<close> and \<open>completedAt\<close> the record holds. Where no id is given and the
  platform has no \<open>crypto.randomUUID\<close>, the call raises a TypeError and the state is not
  changed.
\<close>

lemma addTask_result:
  "(n_id n = None \<and> randomUUID e = None \<longrightarrow> addTask e k n s = Inl TypeError) \<and>
   (n_id n = Some i \<or> (n_id n = None \<and> (\<exists>u. randomUUID e = Some u \<and> u k = i)) \<longrightarrow>
      addTask e k n s =
        Inr (s\<lparr>tasks := tasks s @
          [\<lparr> id_t = Some i, title = Some (n_title n), revenue = Some (n_revenue n),
             timeTaken = Some (if le_zero (n_timeTaken n) then Fin 1 else n_timeTaken n),
             priority = Some (n_priority n), status = Some (n_status n),
             notes_t = n_notes n, createdAt = Some (nowISO e),
             completedAt = (if n_status n = Done then Some (nowISO e) else None) \<rparr>]\<rparr>))"
  by (auto simp: addTask_def Let_def)

lemma addTask_example:
  "addTask exEnv 0 (callClient\<lparr>n_createdAt := c, n_completedAt := d\<rparr>)
       \<lparr>tasks = [], lastDeleted = None\<rparr> =
     Inr \<lparr>tasks =
          [\<lparr> id_t = Some ''uuid-'', title = Some ''Call client'', revenue = Some (Fin 100),
             timeTaken = Some (Fin 1), priority = Some High, status = Some Todo,
             notes_t = None, createdAt = Some ''2023-11-14T22:13:20.000Z'',
             completedAt = None \<rparr>],
        lastDeleted = None\<rparr>"
  by (simp add: addTask_def callClient_def exEnv_def exUUID_def exToISO_def nowISO_def)

text \<open>
  C5 does not hold of the code. \<open>addTask\<close> calls \<open>crypto.randomUUID()\<close> without a guard
  (the sanitizer guards the same call with \<open>crypto?.randomUUID?.()\<close> and a second way
  to make an id). On a platform without \<open>crypto.randomUUID\<close> the record of the example,
  which has no id, raises a TypeError and no task is appended, while the sanitizer on
  the same platform gives a record without id the id \<open>task-1700000000000-0\<close>.
\<close>

theorem addTask_raises:
  "n_id callClient = None \<and> randomUUID exEnvNoUUID = None \<and>
   addTask exEnvNoUUID 0 callClient \<lparr>tasks = [], lastDeleted = None\<rparr> = Inl TypeError \<and>
   sanitizeTasks exEnvNoUUID 0 (Array [Rec noFields]) =
     Inr [\<lparr> id_t = Some ''task-1700000000000-0'', title = Some ''Untitled 1'',
            revenue = Some (Fin 0), timeTaken = Some (Fin 1), priority = Some Medium,
            status = Some Todo, notes_t = None,
            createdAt = Some ''2023-11-14T22:13:20.000Z'', completedAt = None \<rparr>]"
  by (simp add: addTask_def callClient_def exEnvNoUUID_def exEnv_def
      sanitizeTasks_def sanitizeOne_def noFields_def firstId_def genId_def ensureUnique_def
      cleanStatus_def cleanCreatedAt_def cleanCompletedAt_def cleanTitle_def cleanNotes_def
      cleanPriority_def cleanRevenue_def cleanTimeTaken_def nowISO_def exToISO_def
      showInt_def showNat.simps)

section \<open>The invariant of \<open>timeTaken\<close>\<close>

text \<open>
  C6 does not hold of the code. The second map of \<open>updateTask\<close> looks for the id of
  the call in the list after the merge, so where the patch changes the id the merged
  \<open>timeTaken\<close> is not looked at again: task A with \<open>timeTaken\<close> 5 and the patch
  \<open>{id: 'c', timeTaken: 0}\<close> leave a task with \<open>timeTaken\<close> 0, while the same patch
  without the id is corrected to 1. And \<open>addTask\<close> tests \<open>timeTaken <= 0\<close>, which is false
  for NaN, so NaN is stored as it is (the sanitizer tests \<open>> 0\<close> and replaces it). In
  the same way the patch \<open>{timeTaken: undefined}\<close> stores undefined, which is not \<open><= 0\<close>.
\<close>

theorem timeTaken_not_positive:
  "gt_zero_opt (timeTaken taskA) \<and>
   tasks (updateTask exEnv ''a''
       (emptyPatch\<lparr>p_id := Some (Some ''c''), p_timeTaken := Some (Some (Fin 0))\<rparr>)
       \<lparr>tasks = [taskA], lastDeleted = None\<rparr>)
     = [taskA\<lparr>id_t := Some ''c'', timeTaken := Some (Fin 0)\<rparr>] \<and>
   \<not> gt_zero_opt (Some (Fin 0)) \<and>
   tasks (updateTask exEnv ''a'' (emptyPatch\<lparr>p_timeTaken := Some (Some (Fin 0))\<rparr>)
       \<lparr>tasks = [taskA], lastDeleted = None\<rparr>) = [taskA\<lparr>timeTaken := Some (Fin 1)\<rparr>] \<and>
   map_sum (\<lambda>err. err) (\<lambda>s. map timeTaken (tasks s))
     (addTask exEnv 0 (callClient\<lparr>n_timeTaken := NaN\<rparr>) \<lparr>tasks = [], lastDeleted = None\<rparr>)
     = Inr [Some NaN] \<and>
   \<not> gt_zero_opt (Some NaN) \<and>
   tasks (updateTask exEnv ''a'' (emptyPatch\<lparr>p_timeTaken := Some None\<rparr>)
       \<lparr>tasks = [taskA], lastDeleted = None\<rparr>) = [taskA\<lparr>timeTaken := None\<rparr>] \<and>
   \<not> gt_zero_opt None"
  by (simp add: updateTask_def updateOne_def revalidate_def merge_def taskA_def emptyPatch_def
      addTask_def callClient_def exEnv_def)

lemma gt_zero_iff: "gt_zero x \<longleftrightarrow> x \<noteq> NaN \<and> \<not> le_zero x"
  by (cases x) auto

text \<open>
  What \<open>updateTask\<close> does keep: with a patch that leaves the id as it is and sets
  \<open>timeTaken\<close> neither to NaN nor to undefined, tasks with positive \<open>timeTaken\<close> stay so.
\<close>

lemma timeTaken_update_same_id:
  assumes "p_id p = None \<or> p_id p = Some (Some i)"
    and "p_timeTaken p \<noteq> Some (Some NaN)" and "p_timeTaken p \<noteq> Some None"
    and "\<forall>t \<in> set (tasks s). gt_zero_opt (timeTaken t)"
  shows "\<forall>t \<in> set (tasks (updateTask e i p s)). gt_zero_opt (timeTaken t)"
proof -
  have "gt_zero_opt (timeTaken (revalidate i p (updateOne e i p t)))"
    if "gt_zero_opt (timeTaken t)" for t
  proof (cases "id_t t = Some i")
    case False
    with that show ?thesis by (simp add: updateOne_other revalidate_other)
  next
    case True
    have i: "id_t (updateOne e i p t) = Some i"
      using assms(1) True by (auto simp: updateOne_def merge_def Let_def)
    have tt: "timeTaken (updateOne e i p t)
                = (case p_timeTaken p of None \<Rightarrow> timeTaken t | Some v \<Rightarrow> v)"
      using True by (simp add: updateOne_def merge_def Let_def)
    show ?thesis
    proof (cases "p_timeTaken p")
      case None
      with that i tt show ?thesis
        by (cases "timeTaken t") (auto simp: revalidate_def gt_zero_iff)
    next
      case (Some v)
      with assms(2,3) obtain x where "v = Some x" "x \<noteq> NaN" by (cases v) auto
      with Some i tt show ?thesis
        by (auto simp: revalidate_def gt_zero_iff)
    qed
  qed
  with assms(4) show ?thesis
    by (simp add: tasks_updateTask)
qed

section \<open>The sanitizer\<close>

lemma thenE_Inr: "thenE x f = Inr y \<longleftrightarrow> (\<exists>a. x = Inr a \<and> f a = Inr y)"
  by (cases x) auto

lemma map_sum_Inr: "map_sum f g x = Inr y \<longleftrightarrow> (\<exists>a. x = Inr a \<and> y = g a)"
  by (cases x) auto

lemma cleanTimeTaken_positive: "cleanTimeTaken e v = Inr n \<Longrightarrow> gt_zero n"
  by (auto simp: cleanTimeTaken_def map_sum_Inr)

text \<open>What a call of the callback that returns has computed.\<close>

lemma sanitizeOne_Inr:
  assumes "sanitizeOne e idx k seen el = Inr (t, k', seen')"
  shows "\<exists>rev tt created completed fid.
           cleanRevenue e (r_revenue (fields el)) = Inr rev \<and>
           cleanTimeTaken e (r_timeTaken (fields el)) = Inr tt \<and>
           cleanCreatedAt e (r_createdAt (fields el)) = Inr created \<and>
           cleanCompletedAt e (r_completedAt (fields el)) (cleanStatus (r_status (fields el)))
             created = Inr completed \<and>
           ensureUnique e (snd (firstId e k idx (r_id (fields el)))) seen
             (fst (firstId e k idx (r_id (fields el)))) = (fid, k') \<and>
           seen' = insert fid seen \<and>
           t = \<lparr> id_t = Some fid, title = Some (cleanTitle idx (r_title (fields el))),
                 revenue = Some rev, timeTaken = Some tt,
                 priority = Some (cleanPriority (r_priority (fields el))),
                 status = Some (cleanStatus (r_status (fields el))),
                 notes_t = cleanNotes (r_notes (fields el)), createdAt = Some created,
                 completedAt = completed \<rparr>"
proof -
  obtain i k1 where f: "firstId e k idx (r_id (fields el)) = (i, k1)"
    by (cases "firstId e k idx (r_id (fields el))")
  obtain fid k2 where eu: "ensureUnique e k1 seen i = (fid, k2)"
    by (cases "ensureUnique e k1 seen i")
  from assms show ?thesis
    by (auto simp: sanitizeOne_def Let_def thenE_Inr f eu)
qed

lemma sanitizeOne_id:
  assumes "sanitizeOne e idx k seen el = Inr (t, k', seen')"
  shows "\<exists>fid. id_t t = Some fid \<and> seen' = insert fid seen \<and>
           ensureUnique e (snd (firstId e k idx (r_id (fields el)))) seen
             (fst (firstId e k idx (r_id (fields el)))) = (fid, k')"
  using sanitizeOne_Inr [OF assms] by auto

lemma sanitizeOne_positive:
  assumes "sanitizeOne e idx k seen el = Inr (t, k', seen')"
  shows "gt_zero_opt (timeTaken t)"
  using sanitizeOne_Inr [OF assms] by (auto dest: cleanTimeTaken_positive)

lemma firstId_cases:
  assumes "randomUUID e = Some u"
  shows "(\<exists>s. v = JStr s \<and> s \<noteq> [] \<and> firstId e k idx v = (s, k)) \<or>
         firstId e k idx v = (u k, Suc k)"
  using assms by (cases v) (auto simp: firstId_def genId_def)

lemma supplied_Cons:
  "suppliedIds (el # els) \<subseteq> S \<Longrightarrow>
   (\<forall>s. r_id (fields el) = JStr s \<longrightarrow> s \<in> S) \<and> suppliedIds els \<subseteq> S"
  by (auto simp: suppliedIds_def)

text \<open>
  A generator that never returns the same value twice and never returns an id of the
  input gives new replacements.
\<close>

lemma uuid_fresh:
  assumes u: "randomUUID e = Some u" "inj u" "\<forall>j. u j \<notin> S"
  shows "suppliedIds els \<subseteq> S \<Longrightarrow> seen \<subseteq> S \<union> u ` {..<k} \<Longrightarrow>
         replacementsFresh e idx k seen els"
proof (induction els arbitrary: idx k seen)
  case Nil
  then show ?case by simp
next
  case (Cons el els)
  from supplied_Cons [OF Cons.prems(1)]
  have sup: "\<forall>s. r_id (fields el) = JStr s \<longrightarrow> s \<in> S" and sups: "suppliedIds els \<subseteq> S"
    by auto
  obtain i k1 where f: "firstId e k idx (r_id (fields el)) = (i, k1)"
    by (cases "firstId e k idx (r_id (fields el))")
  have k1: "(i \<in> S \<and> k1 = k) \<or> (i = u k \<and> k1 = Suc k)"
    using firstId_cases [OF u(1), of "r_id (fields el)" k idx] f sup by auto
  have fresh: "u j \<notin> seen" if "k \<le> j" for j
  proof
    assume "u j \<in> seen"
    with Cons.prems(2) u(3) obtain j' where "j' < k" "u j = u j'" by auto
    with u(2) that show False by (auto dest: injD)
  qed
  obtain finalId k2 where eu: "ensureUnique e k1 seen i = (finalId, k2)"
    by (cases "ensureUnique e k1 seen i")
  have r: "fst (regenId e k1 i) = u k1"
    using u(1) by (simp add: regenId_def)
  have new: "i \<in> seen \<longrightarrow> u k1 \<notin> seen"
    using fresh [of k1] k1 by auto
  have "insert finalId seen \<subseteq> S \<union> u ` {..<k2}"
  proof (cases "i \<in> seen")
    case True
    then have "finalId = u k1" "k2 = Suc k1"
      using eu u(1) by (simp_all add: ensureUnique_def regenId_def)
    then show ?thesis
      using k1 Cons.prems(2) by (auto simp: lessThan_Suc)
  next
    case False
    then have "finalId = i" "k2 = k1"
      using eu by (simp_all add: ensureUnique_def)
    then show ?thesis
      using k1 Cons.prems(2) by (auto simp: lessThan_Suc)
  qed
  from Cons.IH [OF sups this] have "replacementsFresh e (Suc idx) k2 (insert finalId seen) els" .
  with new r f eu show ?case
    by simp
qed

lemma fresh_distinct:
  "replacementsFresh e idx k seen els \<Longrightarrow> sanitizeFrom e idx k seen els = Inr out \<Longrightarrow>
   distinct (map id_t out) \<and> id_t ` set out \<inter> Some ` seen = {}"
proof (induction els arbitrary: idx k seen out)
  case Nil
  then show ?case by auto
next
  case (Cons el els)
  from Cons.prems(2) obtain t k' seen' ts where
    one: "sanitizeOne e idx k seen el = Inr (t, k', seen')" and
    rest: "sanitizeFrom e (Suc idx) k' seen' els = Inr ts" and
    out: "out = t # ts"
    by (auto split: sum.splits prod.splits)
  obtain i k1 where f: "firstId e k idx (r_id (fields el)) = (i, k1)"
    by (cases "firstId e k idx (r_id (fields el))")
  from sanitizeOne_id [OF one] f obtain fid where fid: "id_t t = Some fid"
    and s': "seen' = insert fid seen" and eu: "ensureUnique e k1 seen i = (fid, k')"
    by auto
  from Cons.prems(1) f eu s'
  have new: "i \<in> seen \<longrightarrow> fst (regenId e k1 i) \<notin> seen"
    and fr: "replacementsFresh e (Suc idx) k' seen' els"
    by simp_all
  have notin: "fid \<notin> seen"
    using eu new by (cases "i \<in> seen") (auto simp: ensureUnique_def)
  from Cons.IH [OF fr rest]
  have ih: "distinct (map id_t ts)" "id_t ` set ts \<inter> Some ` seen' = {}"
    by auto
  show ?case
    using ih notin s' out fid by auto
qed

lemma sanitizeFrom_positive:
  "sanitizeFrom e idx k seen els = Inr out \<Longrightarrow> \<forall>t \<in> set out. gt_zero_opt (timeTaken t)"
proof (induction els arbitrary: idx k seen out)
  case Nil
  then show ?case by auto
next
  case (Cons el els)
  from Cons.prems obtain t k' seen' ts where
    one: "sanitizeOne e idx k seen el = Inr (t, k', seen')" and
    rest: "sanitizeFrom e (Suc idx) k' seen' els = Inr ts" and
    out: "out = t # ts"
    by (auto split: sum.splits prod.splits)
  show ?case
    using Cons.IH [OF rest] sanitizeOne_positive [OF one] out by simp
qed

lemma sanitizeFrom_length:
  "sanitizeFrom e idx k seen els = Inr out \<Longrightarrow> length out = length els"
  by (induction els arbitrary: idx k seen out) (auto split: sum.splits prod.splits)

text \<open>
  What the sanitizer does give: whenever it returns a list, every task of it has
  \<open>timeTaken > 0\<close> and there is one task for each element of the input; the ids of the
  list are pairwise different provided every replacement id drawn for a duplicate is
  new, and in particular where \<open>crypto.randomUUID\<close> exists, never returns the same
  value twice and never returns an id that the input supplies.
\<close>

lemma sanitize_when_fresh:
  assumes "sanitizeTasks e k input = Inr out"
  shows "(\<forall>t \<in> set out. gt_zero_opt (timeTaken t)) \<and>
         length out = length (elements input) \<and>
         (replacementsFresh e 0 k {} (elements input) \<longrightarrow> distinct (map id_t out)) \<and>
         (\<forall>u. randomUUID e = Some u \<and> inj u \<and> (\<forall>j. u j \<notin> suppliedIds (elements input)) \<longrightarrow>
              distinct (map id_t out))"
proof (intro conjI allI impI)
  show "\<forall>t \<in> set out. gt_zero_opt (timeTaken t)"
    using assms unfolding sanitizeTasks_def by (rule sanitizeFrom_positive)
next
  show "length out = length (elements input)"
    using assms unfolding sanitizeTasks_def by (rule sanitizeFrom_length)
next
  assume "replacementsFresh e 0 k {} (elements input)"
  with assms show "distinct (map id_t out)"
    using fresh_distinct [of e 0 k "{}" "elements input" out] by (simp add: sanitizeTasks_def)
next
  fix u assume "randomUUID e = Some u \<and> inj u \<and> (\<forall>j. u j \<notin> suppliedIds (elements input))"
  then have h: "randomUUID e = Some u" "inj u" "\<forall>j. u j \<notin> suppliedIds (elements input)"
    by auto
  have "replacementsFresh e 0 k {} (elements input)"
    by (rule uuid_fresh [OF h]) simp_all
  with assms show "distinct (map id_t out)"
    using fresh_distinct [of e 0 k "{}" "elements input" out] by (simp add: sanitizeTasks_def)
qed

text \<open>
  When the sanitizer returns: a record makes the whole call fail where \<open>revenue\<close> or
  \<open>timeTaken\<close> is an object without a conversion to a primitive (TypeError) or where
  \<open>createdAt\<close> or \<open>completedAt\<close> is truthy and is not a date (RangeError, or TypeError
  for such an object). Where no field is of these, and the platform parses the strings
  that it renders, the call returns.
\<close>

lemma isoDate_returns: "dateOf e v = Inr (Some c) \<Longrightarrow> isoDate e v = Inr (toISOString e c)"
  by (simp add: isoDate_def)

lemma cleanCompletedAt_returns:
  assumes "truthy v \<longrightarrow> (\<exists>c. dateOf e v = Inr (Some c))" and "dateParse e created \<noteq> None"
  shows "\<exists>x. cleanCompletedAt e v st created = Inr x"
proof -
  from assms(2) obtain c where "dateParse e created = Some c" by auto
  then have "isoDate e (JStr created) = Inr (toISOString e c)"
    by (simp add: isoDate_def)
  moreover have "\<exists>y. isoDate e v = Inr y" if "truthy v"
    using assms(1) that by (auto simp: isoDate_returns)
  ultimately show ?thesis
    by (auto simp: cleanCompletedAt_def)
qed

lemma sanitizeOne_returns:
  assumes "r_revenue (fields el) \<noteq> JObj None" and "r_timeTaken (fields el) \<noteq> JObj None"
    and "truthy (r_createdAt (fields el)) \<longrightarrow> (\<exists>c. dateOf e (r_createdAt (fields el)) = Inr (Some c))"
    and "truthy (r_completedAt (fields el)) \<longrightarrow>
           (\<exists>c. dateOf e (r_completedAt (fields el)) = Inr (Some c))"
    and "\<forall>c. dateParse e (toISOString e c) \<noteq> None"
  shows "\<exists>r. sanitizeOne e idx k seen el = Inr r"
proof -
  have n: "\<exists>n. toNumber e v = Inr n" if "v \<noteq> JObj None" for v
    using that by (cases "(e, v)" rule: toNumber.cases) auto
  from n [OF assms(1)] obtain rev where rev: "cleanRevenue e (r_revenue (fields el)) = Inr rev"
    by (auto simp: cleanRevenue_def)
  from n [OF assms(2)] obtain tt where tt: "cleanTimeTaken e (r_timeTaken (fields el)) = Inr tt"
    by (auto simp: cleanTimeTaken_def)
  have "\<exists>c. cleanCreatedAt e (r_createdAt (fields el)) = Inr (toISOString e c)"
  proof (cases "truthy (r_createdAt (fields el))")
    case True
    with assms(3) obtain y where "dateOf e (r_createdAt (fields el)) = Inr (Some y)" by auto
    with True show ?thesis by (auto simp: cleanCreatedAt_def isoDate_returns)
  next
    case False
    then show ?thesis by (auto simp: cleanCreatedAt_def nowISO_def)
  qed
  then obtain created c where cr: "cleanCreatedAt e (r_createdAt (fields el)) = Inr created"
      "created = toISOString e c"
    by blast
  have "dateParse e created \<noteq> None"
    using assms(5) cr(2) by simp
  then obtain completed where
    "cleanCompletedAt e (r_completedAt (fields el)) (cleanStatus (r_status (fields el))) created
       = Inr completed"
    using assms(4) cleanCompletedAt_returns by blast
  with rev tt cr(1) show ?thesis
    by (simp add: sanitizeOne_def Let_def split: prod.splits)
qed

lemma sanitizeFrom_returns:
  assumes "\<forall>c. dateParse e (toISOString e c) \<noteq> None"
  shows "\<forall>el \<in> set els.
           r_revenue (fields el) \<noteq> JObj None \<and> r_timeTaken (fields el) \<noteq> JObj None \<and>
           (truthy (r_createdAt (fields el)) \<longrightarrow>
              (\<exists>c. dateOf e (r_createdAt (fields el)) = Inr (Some c))) \<and>
           (truthy (r_completedAt (fields el)) \<longrightarrow>
              (\<exists>c. dateOf e (r_completedAt (fields el)) = Inr (Some c)))
         \<Longrightarrow> \<exists>out. sanitizeFrom e idx k seen els = Inr out"
proof (induction els arbitrary: idx k seen)
  case Nil
  then show ?case by simp
next
  case (Cons el els)
  from Cons.prems obtain t k' seen' where one: "sanitizeOne e idx k seen el = Inr (t, k', seen')"
    using sanitizeOne_returns [OF _ _ _ _ assms, of el idx k seen] by auto
  from Cons.IH [of "Suc idx" k' seen'] Cons.prems
  obtain ts where "sanitizeFrom e (Suc idx) k' seen' els = Inr ts"
    by auto
  with one show ?case by simp
qed

text \<open>
  C3 does not hold of the code. Under the comment \<open>// ensure unique id\<close> a duplicate id
  is replaced once, by a random string that is not looked up in \<open>seen\<close>. On a platform
  without \<open>crypto.randomUUID\<close> the replacement is the id followed by six characters of
  \<open>Math.random\<close>; three records of id \<open>a\<close>, with the same six characters at both draws,
  give the ids \<open>a\<close>, \<open>a-k3x9qz\<close>, \<open>a-k3x9qz\<close>. And the sanitizer gives no list at all
  for a record whose \<open>createdAt\<close> is not a date: \<open>toISOString\<close> raises a RangeError.
\<close>

theorem sanitize_ids_collide:
  "sanitizeTasks exEnvNoUUID 0
       (Array [Rec (noFields\<lparr>r_id := JStr ''a''\<rparr>), Rec (noFields\<lparr>r_id := JStr ''a''\<rparr>),
               Rec (noFields\<lparr>r_id := JStr ''a''\<rparr>)]) =
     Inr [\<lparr> id_t = Some ''a'', title = Some ''Untitled 1'', revenue = Some (Fin 0),
            timeTaken = Some (Fin 1), priority = Some Medium, status = Some Todo,
            notes_t = None, createdAt = Some ''2023-11-14T22:13:20.000Z'',
            completedAt = None \<rparr>,
          \<lparr> id_t = Some ''a-k3x9qz'', title = Some ''Untitled 2'', revenue = Some (Fin 0),
            timeTaken = Some (Fin 1), priority = Some Medium, status = Some Todo,
            notes_t = None, createdAt = Some ''2023-11-14T22:13:20.000Z'',
            completedAt = None \<rparr>,
          \<lparr> id_t = Some ''a-k3x9qz'', title = Some ''Untitled 3'', revenue = Some (Fin 0),
            timeTaken = Some (Fin 1), priority = Some Medium, status = Some Todo,
            notes_t = None, createdAt = Some ''2023-11-14T22:13:20.000Z'',
            completedAt = None \<rparr>] \<and>
   \<not> distinct [Some ''a'', Some ''a-k3x9qz'', Some ''a-k3x9qz''] \<and>
   sanitizeTasks exEnv 0 (Array [Rec (noFields\<lparr>r_createdAt := JStr ''garbage''\<rparr>)])
     = Inl RangeError"
  by (simp add: sanitizeTasks_def sanitizeOne_def noFields_def firstId_def genId_def
      regenId_def ensureUnique_def cleanStatus_def cleanCreatedAt_def cleanCompletedAt_def
      cleanTitle_def cleanNotes_def cleanPriority_def cleanRevenue_def cleanTimeTaken_def
      nowISO_def isoDate_def exEnvNoUUID_def exEnv_def exToISO_def exParse_def showNat.simps)

section \<open>The rule for \<open>completedAt\<close> at load time\<close>

text \<open>
  C7, as the claim states it, fails: for the Done record \<open>rawDone\<close>, created at
  \<open>1970-01-01T00:00:00.000Z\<close> and without \<open>completedAt\<close>, the sanitizer gives the
  \<open>completedAt\<close> \<open>1970-01-01T00:00:00.000Z\<close>, the time of creation, and the normalizer
  gives \<open>1970-01-02T00:00:00.000Z\<close>, one day later.
\<close>

theorem completedAt_rule_counterexample:
  "r_status rawDone = JStr ''Done'' \<and> r_completedAt rawDone = JUndefined \<and>
   sanitizeTasks exEnv 0 (Array [Rec rawDone]) =
     Inr [\<lparr>id_t = Some ''a'', title = Some ''Untitled 1'', revenue = Some (Fin 0),
         timeTaken = Some (Fin 1), priority = Some Medium, status = Some Done,
         notes_t = None, createdAt = Some ''1970-01-01T00:00:00.000Z'',
         completedAt = Some ''1970-01-01T00:00:00.000Z''\<rparr>] \<and>
   normalizeTasks exEnv (Array [Rec rawDone]) =
     Inr [\<lparr>r_id = JStr ''a'', r_title = JUndefined, r_revenue = JNum NaN,
         r_timeTaken = JNum (Fin 1), r_priority = JUndefined,
         r_status = JStr ''Done'', r_notes = JUndefined,
         r_createdAt = JStr ''1970-01-01T00:00:00.000Z'',
         r_completedAt = JStr ''1970-01-02T00:00:00.000Z''\<rparr>]"
  by (simp add: sanitizeTasks_def sanitizeOne_def rawDone_def noFields_def firstId_def genId_def
      regenId_def ensureUnique_def cleanStatus_def cleanCreatedAt_def cleanCompletedAt_def
      cleanTitle_def cleanNotes_def cleanPriority_def cleanRevenue_def cleanTimeTaken_def
      nowISO_def isoDate_def exEnv_def exUUID_def
      exToISO_def exParse_def showNat.simps normalizeTasks_def normalizeOne_def normCreated_def
      normCompleted_def validTime_def)

lemma isoOf_Inr: "isoOf e d = Inr x \<Longrightarrow> \<exists>c. d = Some c \<and> x = toISOString e c"
  by (cases d) auto

lemma isoDate_Inr: "isoDate e v = Inr x \<Longrightarrow> \<exists>c. dateOf e v = Inr (Some c) \<and> x = toISOString e c"
  by (auto simp: isoDate_def thenE_Inr dest: isoOf_Inr)

lemma cleanCreatedAt_Inr: "cleanCreatedAt e v = Inr x \<Longrightarrow> \<exists>c. x = toISOString e c"
  by (auto simp: cleanCreatedAt_def nowISO_def dest: isoDate_Inr split: if_splits)

lemma sanitizeOne_times:
  assumes "sanitizeOne e idx k seen el = Inr (t, k', seen')"
  shows "status t = Some (cleanStatus (r_status (fields el)))"
    and "\<exists>cr. createdAt t = Some cr \<and>
           cleanCreatedAt e (r_createdAt (fields el)) = Inr cr \<and>
           cleanCompletedAt e (r_completedAt (fields el)) (cleanStatus (r_status (fields el))) cr
             = Inr (completedAt t)"
  using sanitizeOne_Inr [OF assms] by auto

text \<open>
  C7, amended: for a raw record whose status is Done and whose \<open>completedAt\<close> is absent
  (or falsy), the sanitizer sets \<open>completedAt\<close> to \<open>new Date(createdAt).toISOString()\<close>
  of the \<open>createdAt\<close> string it has just computed: the time of creation itself, and the
  very string \<open>createdAt\<close> where the platform parses that string back to the time value
  it was rendered from. The normalizer sets \<open>completedAt\<close> to the time value of
  \<open>createdAt\<close> plus one day.
\<close>

theorem completedAt_rule:
  assumes "r_status (fields el) = JStr ''Done''" and "\<not> truthy (r_completedAt (fields el))"
  shows "(\<forall>t k' seen'. sanitizeOne e idx k seen el = Inr (t, k', seen') \<longrightarrow>
            status t = Some Done \<and>
            (\<exists>c. createdAt t = Some (toISOString e c)) \<and>
            (\<exists>cr c. createdAt t = Some cr \<and> dateParse e cr = Some c \<and>
                 completedAt t = Some (toISOString e c)) \<and>
            (\<forall>c. createdAt t = Some (toISOString e c) \<and>
                 dateParse e (toISOString e c) = Some c \<longrightarrow>
                 completedAt t = createdAt t)) \<and>
         (\<forall>r. normalizeOne e idx el = Inr r \<longrightarrow>
            (\<exists>c. r_createdAt r = JStr (toISOString e c) \<and>
                 r_completedAt r = JStr (toISOString e (c + 24 * 3600 * 1000))))"
proof (intro conjI allI impI)
  fix t k' seen' assume run: "sanitizeOne e idx k seen el = Inr (t, k', seen')"
  show st: "status t = Some Done"
    using sanitizeOne_times(1) [OF run] assms(1) by (simp add: cleanStatus_def)
  from sanitizeOne_times(2) [OF run] assms(1) obtain cr where
    cr: "createdAt t = Some cr" "cleanCreatedAt e (r_createdAt (fields el)) = Inr cr"
      "cleanCompletedAt e (r_completedAt (fields el)) Done cr = Inr (completedAt t)"
    by (auto simp: cleanStatus_def)
  show "\<exists>c. createdAt t = Some (toISOString e c)"
    using cleanCreatedAt_Inr [OF cr(2)] cr(1) by auto
  have "map_sum (\<lambda>err. err) Some (isoDate e (JStr cr)) = Inr (completedAt t)"
    using cr(3) assms(2) by (simp add: cleanCompletedAt_def)
  then obtain c where c: "dateParse e cr = Some c" "completedAt t = Some (toISOString e c)"
    by (auto simp: map_sum_Inr dest: isoDate_Inr)
  with cr(1) show p: "\<exists>cr c. createdAt t = Some cr \<and> dateParse e cr = Some c \<and>
                 completedAt t = Some (toISOString e c)"
    by blast
  fix c' assume "createdAt t = Some (toISOString e c') \<and> dateParse e (toISOString e c') = Some c'"
  with c cr(1) show "completedAt t = createdAt t"
    by auto
next
  fix r assume run: "normalizeOne e idx el = Inr r"
  then obtain raw where el: "el = Rec raw"
    by (cases el) (auto simp: normalizeOne_def)
  from run el obtain created completed str where
    n: "normCreated e idx raw = Inr created" "normCompleted e raw created = Inr completed"
       "isoOf e created = Inr str" "r_createdAt r = JStr str" "r_completedAt r = completed"
    by (auto simp: normalizeOne_def thenE_Inr)
  from isoOf_Inr [OF n(3)] obtain c where c: "created = Some c" "str = toISOString e c"
    by auto
  have "completed = JStr (toISOString e (c + 24 * 3600 * 1000))"
    using n(2) c(1) assms el
    by (auto simp: normCompleted_def map_sum_Inr validTime_def split: if_splits
             dest: isoOf_Inr)
  with n(4,5) c(2) show "\<exists>c. r_createdAt r = JStr (toISOString e c) \<and>
                 r_completedAt r = JStr (toISOString e (c + 24 * 3600 * 1000))"
    by blast
qed

theorem completedAt_rule_witness:
  "r_status (fields (Rec rawDone)) = JStr ''Done'' \<and>
   \<not> truthy (r_completedAt (fields (Rec rawDone))) \<and>
   sanitizeOne exEnv 0 0 {} (Rec rawDone) =
     Inr (\<lparr>id_t = Some ''a'', title = Some ''Untitled 1'', revenue = Some (Fin 0),
         timeTaken = Some (Fin 1), priority = Some Medium, status = Some Done,
         notes_t = None, createdAt = Some ''1970-01-01T00:00:00.000Z'',
         completedAt = Some ''1970-01-01T00:00:00.000Z''\<rparr>, 0, {''a''}) \<and>
   dateParse exEnv (toISOString exEnv 0) = Some 0 \<and>
   normalizeOne exEnv 0 (Rec rawDone) =
     Inr \<lparr>r_id = JStr ''a'', r_title = JUndefined, r_revenue = JNum NaN,
         r_timeTaken = JNum (Fin 1), r_priority = JUndefined,
         r_status = JStr ''Done'', r_notes = JUndefined,
         r_createdAt = JStr ''1970-01-01T00:00:00.000Z'',
         r_completedAt = JStr ''1970-01-02T00:00:00.000Z''\<rparr>"
  using completedAt_rule [of "Rec rawDone" exEnv 0 0 "{}"]
  by (simp add: sanitizeOne_def rawDone_def noFields_def firstId_def genId_def
      regenId_def ensureUnique_def cleanStatus_def cleanCreatedAt_def cleanCompletedAt_def
      cleanTitle_def cleanNotes_def cleanPriority_def cleanRevenue_def cleanTimeTaken_def
      nowISO_def isoDate_def exEnv_def exUUID_def
      exToISO_def exParse_def showNat.simps normalizeOne_def normCreated_def
      normCompleted_def validTime_def)

end
